theory Spec2Isabelle
  imports Main "HOL-Library.AList"
begin

section \<open>Python values the backend handles\<close>

text \<open>
  Exceptions are values.  Every operation of the model returns \<open>exn + 'a\<close>, with
  \<open>Inl\<close> for a raised exception.  \<open>KeyboardInterrupt\<close> stands for the exceptions
  that derive from \<open>BaseException\<close> only, which \<open>except Exception\<close> lets through.
\<close>

datatype exn =
    OSError
  | CmdError
  | ValueError
  | KeyError
  | DuplicateSectionError
  | NoSectionError
  | InterpolationSyntaxError
  | InterpolationMissingOptionError
  | InterpolationDepthError
  | OtherException
  | KeyboardInterrupt

fun is_Exception :: "exn \<Rightarrow> bool" where
  "is_Exception KeyboardInterrupt = False"
| "is_Exception _ = True"

text \<open>
  Strings are lists of 8-bit characters, read as the code points 0 to 255.
  \<open>str.lower\<close> on these code points moves A to Z and the capital letters of
  Latin-1 (192 to 222 without 215) up by 32 and leaves the rest alone.
\<close>

definition lower_char :: "char \<Rightarrow> char" where
  "lower_char c =
     (let n = (of_char c :: nat)
      in if (65 \<le> n \<and> n \<le> 90) \<or> (192 \<le> n \<and> n \<le> 222 \<and> n \<noteq> 215)
         then char_of (n + 32) else c)"

definition lower :: "string \<Rightarrow> string" where
  "lower s = map lower_char s"

definition endswith :: "string \<Rightarrow> string \<Rightarrow> bool" where
  "endswith s suffix = (length suffix \<le> length s \<and> drop (length s - length suffix) s = suffix)"

text \<open>\<open>posixpath.join\<close>, folded over the components after the first.\<close>

definition join_step :: "string \<Rightarrow> string \<Rightarrow> string" where
  "join_step path b =
     (if take 1 b = ''/'' then b
      else if path = [] \<or> endswith path ''/'' then path @ b
      else path @ ''/'' @ b)"

definition path_join :: "string \<Rightarrow> string list \<Rightarrow> string" where
  "path_join a p = foldl join_step a p"

section \<open>The configuration parser\<close>

text \<open>
  \<open>configparser.ConfigParser()\<close> as the backend uses it: the default section's
  options and the named sections, each an insertion-ordered dictionary (an
  association list; \<open>AList.update\<close> keeps the place of a key that is already there
  and appends a new one, as a Python \<open>dict\<close> does).  The parser is created with no
  arguments, so values are interpolated by \<open>BasicInterpolation\<close>.
\<close>

type_synonym pydict = "(string \<times> string) list"

record config =
  cp_defaults :: pydict
  cp_sections :: "(string \<times> pydict) list"

definition DEFAULTSECT :: string where
  "DEFAULTSECT = ''DEFAULT''"

definition MAX_INTERPOLATION_DEPTH :: nat where
  "MAX_INTERPOLATION_DEPTH = 10"

definition empty_config :: config where
  "empty_config = \<lparr>cp_defaults = [], cp_sections = []\<rparr>"

definition optionxform :: "string \<Rightarrow> string" where
  "optionxform optionstr = lower optionstr"

definition dict_update :: "pydict \<Rightarrow> pydict \<Rightarrow> pydict" where
  "dict_update d other = fold (\<lambda>(k, v). AList.update k v) other d"

subsection \<open>Interpolation\<close>

text \<open>
  \<open>_KEYCRE.match(rest)\<close> for the pattern \<open>%\(([^)]+)\)s\<close>: the text starts with
  \<open>%(\<close>, then at least one character other than \<open>)\<close>, then \<open>)s\<close>.  The result is
  the captured name and the text after the match.
\<close>

definition keycre_match :: "string \<Rightarrow> (string \<times> string) option" where
  "keycre_match s =
     (case s of
        a # b # t \<Rightarrow>
          if a = CHR ''%'' \<and> b = CHR ''('' then
            (let name = takeWhile (\<lambda>c. c \<noteq> CHR '')'') t;
                 after = dropWhile (\<lambda>c. c \<noteq> CHR '')'') t
             in if name = [] then None
                else (case after of
                        p # q # r \<Rightarrow> if q = CHR ''s'' then Some (name, r) else None
                      | _ \<Rightarrow> None))
          else None
      | _ \<Rightarrow> None)"

lemma keycre_match_shorter:
  assumes "keycre_match s = Some (name, r)"
  shows "length r < length s"
proof -
  from assms obtain a b t where s: "s = a # b # t"
    by (cases s; cases "tl s") (auto simp: keycre_match_def)
  let ?after = "dropWhile (\<lambda>c. c \<noteq> CHR '')'') t"
  from assms s obtain p q where "?after = p # q # r"
    by (auto simp: keycre_match_def Let_def split: if_splits list.splits)
  then have "length r < length ?after" by simp
  also have "\<dots> \<le> length t" by (rule length_dropWhile_le)
  finally show ?thesis using s by simp
qed

text \<open>\<open>value.replace('%%', '')\<close>: the pairs are removed from left to right.\<close>

fun remove_escaped :: "string \<Rightarrow> string" where
  "remove_escaped (a # b # t) =
     (if a = CHR ''%'' \<and> b = CHR ''%'' then remove_escaped t
      else a # remove_escaped (b # t))"
| "remove_escaped s = s"

text \<open>\<open>_KEYCRE.sub('', value)\<close>: every match, from left to right, is removed.\<close>

function keycre_sub :: "string \<Rightarrow> string" where
  "keycre_sub [] = []"
| "keycre_sub (c # t) =
     (case keycre_match (c # t) of
        Some (name, r) \<Rightarrow> keycre_sub r
      | None \<Rightarrow> c # keycre_sub t)"
  by pat_completeness auto
termination
  by (relation "measure length") (auto dest: keycre_match_shorter)

definition before_set :: "string \<Rightarrow> exn + string" where
  "before_set v =
     (let tmp_value = keycre_sub (remove_escaped v)
      in if CHR ''%'' \<in> set tmp_value then Inl ValueError else Inr v)"

text \<open>
  \<open>_interpolate_some\<close>, returning the joined text instead of appending to an
  accumulator.  The source tests the depth once, on entry, and then loops over
  \<open>rest\<close> at that depth; here every round of the loop is a call at the same depth,
  so the test is repeated with the same outcome.
\<close>

function interpolate_some :: "pydict \<Rightarrow> nat \<Rightarrow> string \<Rightarrow> exn + string" where
  "interpolate_some m depth rest =
     (if depth > MAX_INTERPOLATION_DEPTH then Inl InterpolationDepthError
      else if rest = [] then Inr []
      else
        (let pre = takeWhile (\<lambda>c. c \<noteq> CHR ''%'') rest;
             rest1 = dropWhile (\<lambda>c. c \<noteq> CHR ''%'') rest
         in if rest1 = [] then Inr rest
            else if take 1 (tl rest1) = ''%'' then
              (case interpolate_some m depth (drop 2 rest1) of
                 Inl e \<Rightarrow> Inl e
               | Inr s \<Rightarrow> Inr (pre @ ''%'' @ s))
            else if take 1 (tl rest1) = ''('' then
              (case keycre_match rest1 of
                 None \<Rightarrow> Inl InterpolationSyntaxError
               | Some (name, rest2) \<Rightarrow>
                   (case map_of m (optionxform name) of
                      None \<Rightarrow> Inl InterpolationMissingOptionError
                    | Some v \<Rightarrow>
                        (case (if CHR ''%'' \<in> set v
                               then interpolate_some m (depth + 1) v else Inr v) of
                           Inl e \<Rightarrow> Inl e
                         | Inr s1 \<Rightarrow>
                             (case interpolate_some m depth rest2 of
                                Inl e \<Rightarrow> Inl e
                              | Inr s2 \<Rightarrow> Inr (pre @ s1 @ s2)))))
            else Inl InterpolationSyntaxError))"
  by pat_completeness auto
termination
proof (relation "measures [\<lambda>(m, depth, rest). Suc MAX_INTERPOLATION_DEPTH - depth,
                          \<lambda>(m, depth, rest). length rest]")
  show "wf (measures [\<lambda>(m, depth, rest). Suc MAX_INTERPOLATION_DEPTH - depth,
                      \<lambda>(m, depth, rest). length rest])"
    by simp
next
  fix m :: pydict and depth :: nat and rest x xa :: string
  assume "\<not> MAX_INTERPOLATION_DEPTH < depth" "rest \<noteq> []"
    "x = takeWhile (\<lambda>c. c \<noteq> CHR ''%'') rest" "xa = dropWhile (\<lambda>c. c \<noteq> CHR ''%'') rest"
    "xa \<noteq> []"
  then have "length (drop 2 xa) < length xa" by simp
  also have "length xa \<le> length rest"
    using \<open>xa = dropWhile (\<lambda>c. c \<noteq> CHR ''%'') rest\<close> by (simp add: length_dropWhile_le)
  finally show "((m, depth, drop 2 xa), (m, depth, rest))
      \<in> measures [\<lambda>(m, depth, rest). Suc MAX_INTERPOLATION_DEPTH - depth,
                  \<lambda>(m, depth, rest). length rest]"
    by simp
next
  fix m :: pydict and depth :: nat and rest x xa x2 xb y x2a :: string
  assume "\<not> MAX_INTERPOLATION_DEPTH < depth"
  then have "Suc MAX_INTERPOLATION_DEPTH - (depth + 1) < Suc MAX_INTERPOLATION_DEPTH - depth"
    by arith
  then show "((m, depth + 1, x2a), (m, depth, rest))
      \<in> measures [\<lambda>(m, depth, rest). Suc MAX_INTERPOLATION_DEPTH - depth,
                  \<lambda>(m, depth, rest). length rest]"
    by simp
next
  fix m :: pydict and depth :: nat and rest x xa xb y :: string and x2 :: "string \<times> string"
  assume "xa = dropWhile (\<lambda>c. c \<noteq> CHR ''%'') rest" "keycre_match xa = Some x2" "(xb, y) = x2"
  then have "length y < length xa" by (auto dest: keycre_match_shorter)
  also have "length xa \<le> length rest"
    using \<open>xa = dropWhile (\<lambda>c. c \<noteq> CHR ''%'') rest\<close> by (simp add: length_dropWhile_le)
  finally show "((m, depth, y), (m, depth, rest))
      \<in> measures [\<lambda>(m, depth, rest). Suc MAX_INTERPOLATION_DEPTH - depth,
                  \<lambda>(m, depth, rest). length rest]"
    by simp
qed

declare interpolate_some.simps [simp del]

definition before_get :: "pydict \<Rightarrow> string \<Rightarrow> exn + string" where
  "before_get d v = interpolate_some d 1 v"

subsection \<open>The methods the backend calls\<close>

definition sections :: "config \<Rightarrow> string list" where
  "sections cp = map fst (cp_sections cp)"

definition has_section :: "config \<Rightarrow> string \<Rightarrow> bool" where
  "has_section cp section = (section \<in> set (sections cp))"

definition add_section :: "config \<Rightarrow> string \<Rightarrow> exn + config" where
  "add_section cp section =
     (if section = DEFAULTSECT then Inl ValueError
      else if section \<in> set (sections cp) then Inl DuplicateSectionError
      else Inr (cp\<lparr>cp_sections := cp_sections cp @ [(section, [])]\<rparr>))"

definition remove_section :: "config \<Rightarrow> string \<Rightarrow> config" where
  "remove_section cp section = cp\<lparr>cp_sections := AList.delete section (cp_sections cp)\<rparr>"

text \<open>
  \<open>set(section, option, value)\<close>: a non-empty value is checked by \<open>before_set\<close>
  first; an empty section name or \<open>DEFAULT\<close> addresses the defaults; the option
  name is stored lower-cased.
\<close>

definition set_cp :: "config \<Rightarrow> string \<Rightarrow> string \<Rightarrow> string \<Rightarrow> exn + config" where
  "set_cp cp section option v =
     (case (if v \<noteq> [] then before_set v else Inr v) of
        Inl e \<Rightarrow> Inl e
      | Inr v' \<Rightarrow>
          if section = [] \<or> section = DEFAULTSECT
          then Inr (cp\<lparr>cp_defaults := AList.update (optionxform option) v' (cp_defaults cp)\<rparr>)
          else (case map_of (cp_sections cp) section of
                  None \<Rightarrow> Inl NoSectionError
                | Some sectdict \<Rightarrow>
                    Inr (cp\<lparr>cp_sections :=
                           AList.update section
                             (AList.update (optionxform option) v' sectdict)
                             (cp_sections cp)\<rparr>)))"

text \<open>
  \<open>items(section)\<close>: the defaults overlaid with the section's own options, every
  value interpolated against that merged dictionary, in the order of its keys.
  The list is built before the caller sees any element, so the first value that
  fails to interpolate raises.
\<close>

fun interpolate_items :: "pydict \<Rightarrow> pydict \<Rightarrow> exn + pydict" where
  "interpolate_items d [] = Inr []"
| "interpolate_items d ((option, v) # kvs) =
     (case before_get d v of
        Inl e \<Rightarrow> Inl e
      | Inr v' \<Rightarrow>
          (case interpolate_items d kvs of
             Inl e \<Rightarrow> Inl e
           | Inr r \<Rightarrow> Inr ((option, v') # r)))"

definition items :: "config \<Rightarrow> string \<Rightarrow> exn + pydict" where
  "items cp section =
     (case map_of (cp_sections cp) section of
        None \<Rightarrow>
          if section \<noteq> DEFAULTSECT then Inl NoSectionError
          else interpolate_items (cp_defaults cp) (cp_defaults cp)
      | Some sectdict \<Rightarrow>
          (let d = dict_update (cp_defaults cp) sectdict
           in interpolate_items d d))"

section \<open>The world outside the backend\<close>

text \<open>
  The handle of the optional \<open>yum\<close> module: \<open>searchPackageProvides\<close> answers a
  list of patterns with the matching packages, in iteration order, or raises.  A
  package is known by its \<open>str\<close> form.
\<close>

datatype package = Package string

fun str_package :: "package \<Rightarrow> string" where
  "str_package (Package s) = s"

datatype YumBase = YumBase (searchPackageProvides: "string list \<Rightarrow> exn + package list")

text \<open>
  Modelled from the spec: the base class \<open>RpmBackend\<close> is not among the sources.
  The spec names it a capability interface (\<open>check_installed\<close>, \<open>rpm_install\<close>,
  \<open>prepare_source\<close>) implemented by a collaborator; it is taken as a parameter.
\<close>

record RpmBackend =
  check_installed :: "string \<Rightarrow> bool"
  rpm_install :: "string \<Rightarrow> bool"
  prepare_source :: "string \<Rightarrow> string \<Rightarrow> string option \<Rightarrow> string"

text \<open>
  What the operating system answers during one call of an operation: the exit
  status of a command (which may depend on how many commands ran before), whether
  \<open>NamedTemporaryFile\<close> and the write to it succeed, the strings
  \<open>data_factory.generate_random_string(4)\<close> returns call after call, whether the
  \<open>yum\<close> module could be imported (and the handle \<open>yum.YumBase()\<close> then gives), the
  directory \<open>mkdtemp\<close> creates, the file names found in a directory after the
  download, \<open>os.environ["HOME"]\<close>, and what \<open>ConfigParser.read\<close> yields from
  the text \<open>write\<close> produces for a parser state (the INI text is not modelled,
  and reading it back need not give the state that was written: values are
  stripped, for one).
\<close>

record os_env =
  exit_status :: "nat \<Rightarrow> string \<Rightarrow> nat"
  tmp_file_name :: "string option"
  tmp_write_ok :: bool
  rand_string :: "nat \<Rightarrow> string"
  yum_module :: "YumBase option"
  mkdtemp_path :: string
  listdir :: "string \<Rightarrow> string list"
  environ_home :: "string option"
  read_written :: "config \<Rightarrow> config"

text \<open>
  What the operations leave behind: the content of the repository file (as
  \<open>ConfigParser.read\<close> parses it, empty when the file is missing), the commands handed
  to the process runner in order (whether a call asks for \<open>sudo\<close> is not
  recorded), the queries put to the yum handle, the temporary directories that
  exist, and the number of random strings drawn so far.
\<close>

record world =
  repo_file :: config
  cmds :: "string list"
  queries :: "string list list"
  tmp_dirs :: "string list"
  rand_calls :: nat

text \<open>
  Modelled from the spec: \<open>avocado.utils.process\<close> is not among the sources.  The
  spec describes a process-execution interface returning the exit status and
  raising a distinguished error type on nonzero exit (unless suppressed); the
  \<open>except\<close> clauses of the source name that type \<open>process.CmdError\<close>.
\<close>

definition process_system :: "os_env \<Rightarrow> string \<Rightarrow> world \<Rightarrow> (exn + nat) \<times> world" where
  "process_system env c w =
     (let status = exit_status env (length (cmds w)) c;
          w' = w\<lparr>cmds := cmds w @ [c]\<rparr>
      in if status \<noteq> 0 then (Inl CmdError, w') else (Inr status, w'))"

section \<open>The yum backend\<close>

record YumBackend =
  cmd :: string
  base_command :: string
  cfgparser :: "config option"
  yum_base_attr :: "YumBase option"
  transient_opts :: string

definition REPO_FILE_PATH :: string where
  "REPO_FILE_PATH = ''/etc/yum.repos.d/avocado-managed.repo''"

text \<open>
  The fields \<open>__init__\<close> sets, given the path \<open>utils_path.find_command(cmd)\<close> found
  and whether \<open>/ostree\<close> is a directory.  \<open>__init__\<close> also calls \<open>_set_version\<close>,
  which stores \<open>pm_version\<close>; no operation below reads it and it is left out.
\<close>

definition init :: "string \<Rightarrow> bool \<Rightarrow> string \<Rightarrow> YumBackend" where
  "init found_command ostree c =
     \<lparr>cmd = c,
      base_command = found_command @ '' -y '',
      cfgparser = None,
      yum_base_attr = None,
      transient_opts = (if ostree then [] @ '' --transient '' else [])\<rparr>"

text \<open>The property \<open>repo_config_parser\<close>: the file is read on first use only.\<close>

definition repo_config_parser :: "YumBackend \<Rightarrow> world \<Rightarrow> config \<times> YumBackend" where
  "repo_config_parser self w =
     (case cfgparser self of
        None \<Rightarrow> (repo_file w, self\<lparr>cfgparser := Some (repo_file w)\<rparr>)
      | Some cp \<Rightarrow> (cp, self))"

text \<open>The property \<open>yum_base\<close>: created on first use when the module is there.\<close>

definition yum_base :: "os_env \<Rightarrow> YumBackend \<Rightarrow> YumBase option \<times> YumBackend" where
  "yum_base env self =
     (case yum_base_attr self of
        None \<Rightarrow>
          (case yum_module env of
             Some y \<Rightarrow> (Some y, self\<lparr>yum_base_attr := Some y\<rparr>)
           | None \<Rightarrow> (None, self))
      | Some y \<Rightarrow> (Some y, self))"

subsection \<open>Command-backed operations\<close>

text \<open>
  Modelled from the spec: \<open>_run_cmd\<close> is called by \<open>install\<close>, \<open>remove\<close> and
  \<open>upgrade\<close> but defined outside the sources.  The spec says that these operations
  delegate execution and return-code interpretation to the process runner, that
  success is "process exited zero", and that with a runner that always fails
  every command-backed operation returns the documented failure sentinel rather
  than raising (failures are non-fatal to the caller).  The caller in
  \<open>get_source\<close> tests \<open>if not self.install(pkg)\<close> accordingly.  (The spec's other
  sentence, that failure propagates the runner's exception, contradicts these.)
\<close>

definition run_cmd :: "os_env \<Rightarrow> string \<Rightarrow> world \<Rightarrow> (exn + bool) \<times> world" where
  "run_cmd env c w =
     (case process_system env c w of
        (Inl CmdError, w') \<Rightarrow> (Inr False, w')
      | (Inl e, w') \<Rightarrow> (Inl e, w')
      | (Inr status, w') \<Rightarrow> (Inr True, w'))"

definition install :: "os_env \<Rightarrow> string \<Rightarrow> YumBackend \<Rightarrow> world \<Rightarrow> (exn + bool) \<times> world" where
  "install env name self w =
     (let i_cmd = base_command self @ ''install'' @ '' '' @ name @ transient_opts self
      in run_cmd env i_cmd w)"

definition remove :: "os_env \<Rightarrow> string \<Rightarrow> YumBackend \<Rightarrow> world \<Rightarrow> (exn + bool) \<times> world" where
  "remove env name self w =
     (let r_cmd = base_command self @ ''erase'' @ '' '' @ name @ transient_opts self
      in run_cmd env r_cmd w)"

text \<open>\<open>upgrade(name=None)\<close>: \<open>not name\<close> holds for \<open>None\<close> and for the empty string.\<close>

definition upgrade :: "os_env \<Rightarrow> string option \<Rightarrow> YumBackend \<Rightarrow> world \<Rightarrow> (exn + bool) \<times> world" where
  "upgrade env name self w =
     (let r_cmd =
        (case name of
           None \<Rightarrow> base_command self @ ''update'' @ transient_opts self
         | Some n \<Rightarrow>
             if n = [] then base_command self @ ''update'' @ transient_opts self
             else base_command self @ ''update'' @ '' '' @ n @ transient_opts self)
      in run_cmd env r_cmd w)"

subsection \<open>Repository management\<close>

text \<open>
  The scan both operations start with: \<open>for section in sections(): for option,
  value in items(section): if option == "baseurl" and value == url\<close>.
\<close>

definition is_baseurl :: "string \<Rightarrow> string \<times> string \<Rightarrow> bool" where
  "is_baseurl url = (\<lambda>(option, v). option = ''baseurl'' \<and> v = url)"

fun url_is_set :: "config \<Rightarrow> string \<Rightarrow> string list \<Rightarrow> exn + bool" where
  "url_is_set cp url [] = Inr False"
| "url_is_set cp url (section # rest) =
     (case items cp section of
        Inl e \<Rightarrow> Inl e
      | Inr its \<Rightarrow> if list_ex (is_baseurl url) its then Inr True else url_is_set cp url rest)"

text \<open>
  The \<open>while True\<close> loop that draws random names until one is free.  It ends only
  if the generator ever returns such a name; \<open>None\<close> is the loop that runs forever.
  The result carries the number of strings drawn.
\<close>

partial_function (option) gen_section_name :: "os_env \<Rightarrow> config \<Rightarrow> nat \<Rightarrow> (string \<times> nat) option" where
  "gen_section_name env cp n =
     (if \<not> has_section cp (''software_manager'' @ ''_'' @ rand_string env n)
      then Some (''software_manager'' @ ''_'' @ rand_string env n, Suc n)
      else gen_section_name env cp (Suc n))"

declare gen_section_name.simps [code]

text \<open>\<open>for opt_key, opt_value in repo_options.items(): set(section_name, ...)\<close>\<close>

fun set_options :: "config \<Rightarrow> string \<Rightarrow> pydict \<Rightarrow> exn option \<times> config" where
  "set_options cp section_name [] = (None, cp)"
| "set_options cp section_name ((opt_key, opt_value) # rest) =
     (case set_cp cp section_name opt_key opt_value of
        Inl e \<Rightarrow> (Some e, cp)
      | Inr cp' \<Rightarrow> set_options cp' section_name rest)"

text \<open>
  The \<open>with tempfile.NamedTemporaryFile\<close> block of \<open>add_repo\<close>: write, flush, copy
  into place.  A \<open>cp\<close> that exits with status zero has replaced the
  repository file by the text written for the parser's state, which a later
  \<open>read\<close> parses as \<open>read_written\<close> says.
\<close>

definition write_and_copy :: "os_env \<Rightarrow> config \<Rightarrow> world \<Rightarrow> (exn + unit) \<times> world" where
  "write_and_copy env cp w =
     (case tmp_file_name env of
        None \<Rightarrow> (Inl OSError, w)
      | Some tmp_name \<Rightarrow>
          if \<not> tmp_write_ok env then (Inl OSError, w)
          else (case process_system env (''cp '' @ tmp_name @ '' '' @ REPO_FILE_PATH) w of
                  (Inl e, w') \<Rightarrow> (Inl e, w')
                | (Inr status, w') \<Rightarrow> (Inr (), w'\<lparr>repo_file := read_written env cp\<rparr>)))"

text \<open>The body of the \<open>try\<close> of \<open>add_repo\<close>.  A step that raises leaves the parser
  as the steps before it made it.\<close>

definition add_repo_try ::
  "os_env \<Rightarrow> string \<Rightarrow> pydict \<Rightarrow> string \<Rightarrow> config \<Rightarrow> world \<Rightarrow> (exn + bool) \<times> config \<times> world" where
  "add_repo_try env url repo_options section_name cp w =
     (case add_section cp section_name of
        Inl e \<Rightarrow> (Inl e, cp, w)
      | Inr cp1 \<Rightarrow>
     (case set_cp cp1 section_name ''name'' ''Avocado managed repository'' of
        Inl e \<Rightarrow> (Inl e, cp1, w)
      | Inr cp2 \<Rightarrow>
     (case set_cp cp2 section_name ''baseurl'' url of
        Inl e \<Rightarrow> (Inl e, cp2, w)
      | Inr cp3 \<Rightarrow>
     (case set_options cp3 section_name repo_options of
        (Some e, cp4) \<Rightarrow> (Inl e, cp4, w)
      | (None, cp4) \<Rightarrow>
     (case write_and_copy env cp4 w of
        (Inl e, w') \<Rightarrow> (Inl e, cp4, w')
      | (Inr u, w') \<Rightarrow> (Inr True, cp4, w'))))))"

text \<open>\<open>except (OSError, process.CmdError): return False\<close>; anything else goes on.\<close>

fun except_os_cmd :: "exn + bool \<Rightarrow> exn + bool" where
  "except_os_cmd (Inl OSError) = Inr False"
| "except_os_cmd (Inl CmdError) = Inr False"
| "except_os_cmd r = r"

definition add_repo ::
  "os_env \<Rightarrow> string \<Rightarrow> pydict \<Rightarrow> YumBackend \<Rightarrow> world
     \<Rightarrow> ((exn + bool) \<times> YumBackend \<times> world) option" where
  "add_repo env url opt_params self w =
     (let repo_options = dict_update [(''enabled'', ''1''), (''gpgcheck'', ''0'')] opt_params;
          (cp, self1) = repo_config_parser self w
      in case url_is_set cp url (sections cp) of
           Inl e \<Rightarrow> Some (Inl e, self1, w)
         | Inr True \<Rightarrow> Some (Inr True, self1, w)
         | Inr False \<Rightarrow>
             (case gen_section_name env cp (rand_calls w) of
                None \<Rightarrow> None
              | Some (section_name, n) \<Rightarrow>
                  (case add_repo_try env url repo_options section_name cp (w\<lparr>rand_calls := n\<rparr>) of
                     (r, cp', w') \<Rightarrow> Some (except_os_cmd r, self1\<lparr>cfgparser := Some cp'\<rparr>, w'))))"

text \<open>
  The loops of \<open>remove_repo\<close>.  The inner one runs over the items computed before
  any removal; the outer one over the section names listed before the loop.  A
  section whose items cannot be computed raises, and the removals made so far stay.
\<close>

definition remove_if_baseurl :: "string \<Rightarrow> string \<Rightarrow> pydict \<Rightarrow> config \<Rightarrow> config" where
  "remove_if_baseurl url section its cp =
     fold (\<lambda>item c. if is_baseurl url item then remove_section c section else c) its cp"

fun remove_matching :: "config \<Rightarrow> string \<Rightarrow> string list \<Rightarrow> exn option \<times> config" where
  "remove_matching cp url [] = (None, cp)"
| "remove_matching cp url (section # rest) =
     (case items cp section of
        Inl e \<Rightarrow> (Some e, cp)
      | Inr its \<Rightarrow> remove_matching (remove_if_baseurl url section its cp) url rest)"

definition remove_repo ::
  "os_env \<Rightarrow> string \<Rightarrow> YumBackend \<Rightarrow> world \<Rightarrow> (exn + bool) \<times> YumBackend \<times> world" where
  "remove_repo env url self w =
     (case tmp_file_name env of
        None \<Rightarrow> (except_os_cmd (Inl OSError), self, w)
      | Some tmp_name \<Rightarrow>
          (let (cp, self1) = repo_config_parser self w
           in case remove_matching cp url (sections cp) of
                (Some e, cp') \<Rightarrow> (except_os_cmd (Inl e), self1\<lparr>cfgparser := Some cp'\<rparr>, w)
              | (None, cp') \<Rightarrow>
                  if \<not> tmp_write_ok env
                  then (except_os_cmd (Inl OSError), self1\<lparr>cfgparser := Some cp'\<rparr>, w)
                  else (case process_system env (''cp '' @ tmp_name @ '' '' @ REPO_FILE_PATH) w of
                          (Inl e, w') \<Rightarrow> (except_os_cmd (Inl e), self1\<lparr>cfgparser := Some cp'\<rparr>, w')
                        | (Inr status, w') \<Rightarrow>
                            (except_os_cmd (Inr True), self1\<lparr>cfgparser := Some cp'\<rparr>,
                             w'\<lparr>repo_file := read_written env cp'\<rparr>))))"

subsection \<open>Capability lookup\<close>

text \<open>
  \<open>provides\<close>.  The second read of the property \<open>yum_base\<close> returns the handle the
  first one stored.  \<open>except Exception\<close> turns an error of the query into the
  empty result; an exception outside \<open>Exception\<close> goes on to the caller.
\<close>

definition provides ::
  "os_env \<Rightarrow> string \<Rightarrow> YumBackend \<Rightarrow> world \<Rightarrow> (exn + string option) \<times> YumBackend \<times> world" where
  "provides env name self w =
     (case yum_base env self of
        (None, self1) \<Rightarrow> (Inr None, self1, w)
      | (Some y, self1) \<Rightarrow>
          (let w' = w\<lparr>queries := queries w @ [[''*/'' @ name]]\<rparr>
           in case (case searchPackageProvides y [''*/'' @ name] of
                      Inl exc \<Rightarrow> if is_Exception exc then Inr [] else Inl exc
                    | Inr d_provides \<Rightarrow> Inr d_provides) of
                Inl exc \<Rightarrow> (Inl exc, self1, w')
              | Inr provides_list \<Rightarrow>
                  (case provides_list of
                     p # ps \<Rightarrow> (Inr (Some (str_package p)), self1, w')
                   | [] \<Rightarrow> (Inr None, self1, w'))))"

subsection \<open>Source package retrieval\<close>

definition build_dep :: "os_env \<Rightarrow> string \<Rightarrow> world \<Rightarrow> (exn + bool) \<times> world" where
  "build_dep env name w =
     (case process_system env (''yum-builddep -y --tolerant '' @ name) w of
        (Inl CmdError, w') \<Rightarrow> (Inr False, w')
      | (Inl e, w') \<Rightarrow> (Inl e, w')
      | (Inr status, w') \<Rightarrow> (Inr True, w'))"

text \<open>
  \<open>for pkg in ["rpm-build", "yum-utils"]\<close>: a helper package that is neither
  installed nor installable ends the operation.  \<open>Inr True\<close> means the loop ran
  through.
\<close>

fun ensure_installed ::
  "os_env \<Rightarrow> RpmBackend \<Rightarrow> YumBackend \<Rightarrow> string list \<Rightarrow> world \<Rightarrow> (exn + bool) \<times> world" where
  "ensure_installed env base self [] w = (Inr True, w)"
| "ensure_installed env base self (pkg # rest) w =
     (if \<not> check_installed base pkg then
        (case install env pkg self w of
           (Inl e, w') \<Rightarrow> (Inl e, w')
         | (Inr ok, w') \<Rightarrow> if \<not> ok then (Inr False, w') else ensure_installed env base self rest w')
      else ensure_installed env base self rest w)"

text \<open>The inner \<open>try\<close> of \<open>get_source\<close>, before its \<open>except process.CmdError\<close>.\<close>

definition download_and_prepare ::
  "os_env \<Rightarrow> RpmBackend \<Rightarrow> string \<Rightarrow> string \<Rightarrow> string option \<Rightarrow> string \<Rightarrow> world
     \<Rightarrow> (exn + string) \<times> world" where
  "download_and_prepare env base name dest_path build_option path w =
     (case process_system env
             (''yumdownloader --assumeyes --verbose '' @ ''--source '' @ name @ '' --destdir '' @ path)
             w of
        (Inl e, w1) \<Rightarrow> (Inl e, w1)
      | (Inr status, w1) \<Rightarrow>
          (let src_rpms = filter (\<lambda>f. endswith f ''.src.rpm'') (listdir env path)
           in if length src_rpms \<noteq> 1 then (Inr [], w1)
              else if rpm_install base (path_join path [last src_rpms]) then
                (case environ_home env of
                   None \<Rightarrow> (Inl KeyError, w1)
                 | Some home \<Rightarrow>
                     (let spec_path = path_join home [''rpmbuild'', ''SPECS'', name @ ''.spec'']
                      in case build_dep env spec_path w1 of
                           (Inl e, w2) \<Rightarrow> (Inl e, w2)
                         | (Inr ok, w2) \<Rightarrow>
                             if ok then (Inr (prepare_source base spec_path dest_path build_option), w2)
                             else (Inr [], w2)))
              else (Inr [], w1)))"

text \<open>The outer \<open>try\<close>, whose \<open>finally\<close> follows in \<open>get_source\<close>.\<close>

definition get_source_try ::
  "os_env \<Rightarrow> RpmBackend \<Rightarrow> string \<Rightarrow> string option \<Rightarrow> string option \<Rightarrow> string
     \<Rightarrow> YumBackend \<Rightarrow> world \<Rightarrow> (exn + string) \<times> world" where
  "get_source_try env base name dest_path build_option path self w =
     (case dest_path of
        None \<Rightarrow> (Inr [], w)
      | Some dest \<Rightarrow>
          (case ensure_installed env base self [''rpm-build'', ''yum-utils''] w of
             (Inl e, w1) \<Rightarrow> (Inl e, w1)
           | (Inr False, w1) \<Rightarrow> (Inr [], w1)
           | (Inr True, w1) \<Rightarrow>
               (case download_and_prepare env base name dest build_option path w1 of
                  (Inl CmdError, w2) \<Rightarrow> (Inr [], w2)
                | r \<Rightarrow> r)))"

text \<open>
  \<open>get_source\<close>: \<open>mkdtemp\<close> makes the directory, the \<open>finally\<close> clause removes it
  whatever the body returned or raised.  The empty string is \<open>[]\<close>.
\<close>

definition get_source ::
  "os_env \<Rightarrow> RpmBackend \<Rightarrow> string \<Rightarrow> string option \<Rightarrow> string option
     \<Rightarrow> YumBackend \<Rightarrow> world \<Rightarrow> (exn + string) \<times> world" where
  "get_source env base name dest_path build_option self w =
     (let path = mkdtemp_path env;
          w0 = w\<lparr>tmp_dirs := path # tmp_dirs w\<rparr>
      in case get_source_try env base name dest_path build_option path self w0 of
           (r, w1) \<Rightarrow> (r, w1\<lparr>tmp_dirs := removeAll path (tmp_dirs w1)\<rparr>))"

section \<open>Concrete inputs\<close>

text \<open>
  A machine where every command succeeds and the \<open>yum\<close> module is missing, one
  where every command fails, and one whose \<open>yum\<close> module answers every query with
  two packages; an empty world and a backend as \<open>__init__\<close> leaves it.  On
  these machines the text written for a parser state reads back as that state,
  as it does for the states used below, whose values carry no blanks or line
  breaks at either end.
\<close>

definition example_env :: os_env where
  "example_env =
     \<lparr>exit_status = (\<lambda>n c. 0),
      tmp_file_name = Some ''/tmp/avocado_software_managerq1w2'',
      tmp_write_ok = True,
      rand_string = (\<lambda>n. ''aB3d''),
      yum_module = None,
      mkdtemp_path = ''/tmp/avocado_software_manager7xyz'',
      listdir = (\<lambda>p. []),
      environ_home = Some ''/root'',
      read_written = (\<lambda>cp. cp)\<rparr>"

definition failing_env :: os_env where
  "failing_env = example_env\<lparr>exit_status := (\<lambda>n c. 1)\<rparr>"

definition example_yum :: YumBase where
  "example_yum = YumBase (\<lambda>args. Inr [Package ''bash-5.1-1.x86_64'', Package ''sh-1.0-1.noarch''])"

definition yum_env :: os_env where
  "yum_env = example_env\<lparr>yum_module := Some example_yum\<rparr>"

definition example_world :: world where
  "example_world =
     \<lparr>repo_file = empty_config, cmds = [], queries = [], tmp_dirs = [], rand_calls = 0\<rparr>"

definition example_backend :: YumBackend where
  "example_backend = init ''/usr/bin/yum'' False ''yum''"

definition example_base :: RpmBackend where
  "example_base =
     \<lparr>check_installed = (\<lambda>pkg. True),
      rpm_install = (\<lambda>path. True),
      prepare_source = (\<lambda>spec_path dest_path build_option. dest_path)\<rparr>"

text \<open>A world whose repository file already holds one repository.\<close>

definition one_repo_world :: world where
  "one_repo_world =
     example_world\<lparr>repo_file :=
       \<lparr>cp_defaults = [],
        cp_sections =
          [(''software_manager_Zq7x'',
            [(''name'', ''Avocado managed repository''),
             (''baseurl'', ''http://mirror.example.com/other''),
             (''enabled'', ''1''), (''gpgcheck'', ''0'')])]\<rparr>\<rparr>"

text \<open>
  Two more machines, differing in the random strings they draw: the first draws
  \<open>aB3d\<close> and then \<open>Zq7x\<close>, the second \<open>Zq7x\<close> (taken in \<open>one_repo_world\<close>) and then
  \<open>aB3d\<close>.  The copy command both repository operations run on these machines.
\<close>

definition two_names_env :: os_env where
  "two_names_env = example_env\<lparr>rand_string := (\<lambda>n. if n = 0 then ''aB3d'' else ''Zq7x'')\<rparr>"

definition colliding_env :: os_env where
  "colliding_env = example_env\<lparr>rand_string := (\<lambda>n. if n = 0 then ''Zq7x'' else ''aB3d'')\<rparr>"

definition copy_command :: string where
  "copy_command = ''cp /tmp/avocado_software_managerq1w2 /etc/yum.repos.d/avocado-managed.repo''"

text \<open>
  Parser states: one section as \<open>add_repo\<close> completes it for a URL with the
  default options, and sections that hold the \<open>name\<close> option only.
\<close>

definition one_repo_config :: "string \<Rightarrow> string \<Rightarrow> config" where
  "one_repo_config section_name url =
     \<lparr>cp_defaults = [],
      cp_sections =
        [(section_name,
          [(''name'', ''Avocado managed repository''), (''baseurl'', url),
           (''enabled'', ''1''), (''gpgcheck'', ''0'')])]\<rparr>"

definition name_only_config :: "string list \<Rightarrow> config" where
  "name_only_config section_names =
     \<lparr>cp_defaults = [],
      cp_sections = map (\<lambda>n. (n, [(''name'', ''Avocado managed repository'')])) section_names\<rparr>"

section \<open>Properties of the capability lookup\<close>

lemma yum_base_None_iff:
  "fst (yum_base env self) = None \<longleftrightarrow> yum_base_attr self = None \<and> yum_module env = None"
  by (simp add: yum_base_def split: option.splits)

lemma yum_base_None_self: "fst (yum_base env self) = None \<Longrightarrow> snd (yum_base env self) = self"
  by (simp add: yum_base_def split: option.splits)

text \<open>
  C7.  Whenever the property \<open>yum_base\<close> is \<open>None\<close> (no handle stored and the
  \<open>yum\<close> module missing), \<open>provides\<close> returns \<open>None\<close> for every capability name,
  and neither the backend nor the world changes: no query is made.
\<close>

theorem provides_disabled:
  assumes "fst (yum_base env self) = None"
  shows "provides env name self w = (Inr None, self, w)"
proof -
  from assms have "yum_base env self = (None, self)"
    using yum_base_None_self [OF assms] by (simp add: prod_eq_iff)
  then show ?thesis by (simp add: provides_def)
qed

theorem provides_disabled_witness:
  "fst (yum_base example_env example_backend) = None \<and>
   provides example_env ''libfoo.so'' example_backend example_world
     = (Inr None, example_backend, example_world)"
proof -
  have h: "fst (yum_base example_env example_backend) = None"
    by (simp add: yum_base_def example_env_def example_backend_def init_def)
  show ?thesis using h provides_disabled [OF h] by simp
qed

text \<open>
  C8.  When the property \<open>yum_base\<close> gives a handle, \<open>provides\<close> puts exactly one
  query to it, for the pattern \<open>'*/' + name\<close>, and returns the string form of the
  first package of the answer; it returns \<open>None\<close> when the answer is empty and
  when the query raises an \<open>Exception\<close>.  (An exception outside \<open>Exception\<close> is
  not caught.)
\<close>

theorem provides_first_match:
  assumes "fst (yum_base env self) = Some y"
  shows "provides env name self w =
           ((case searchPackageProvides y [''*/'' @ name] of
               Inr (p # ps) \<Rightarrow> Inr (Some (str_package p))
             | Inr [] \<Rightarrow> Inr None
             | Inl exc \<Rightarrow> if is_Exception exc then Inr None else Inl exc),
            snd (yum_base env self),
            w\<lparr>queries := queries w @ [[''*/'' @ name]]\<rparr>)"
proof -
  obtain self1 where y: "yum_base env self = (Some y, self1)"
    using assms by (cases "yum_base env self") simp
  show ?thesis
  proof (cases "searchPackageProvides y [''*/'' @ name]")
    case (Inl exc)
    with y show ?thesis by (simp add: provides_def Let_def)
  next
    case (Inr d_provides)
    with y show ?thesis by (cases d_provides) (simp_all add: provides_def Let_def)
  qed
qed

theorem provides_first_match_witness:
  "fst (yum_base yum_env example_backend) = Some example_yum \<and>
   fst (provides yum_env ''sh'' example_backend example_world) = Inr (Some ''bash-5.1-1.x86_64'') \<and>
   queries (snd (snd (provides yum_env ''sh'' example_backend example_world))) = [[''*/sh'']]"
proof -
  have h: "fst (yum_base yum_env example_backend) = Some example_yum"
    by (simp add: yum_base_def yum_env_def example_env_def example_backend_def init_def)
  show ?thesis
    using h provides_first_match [OF h, of "''sh''" example_world]
    by (simp add: example_yum_def example_world_def)
qed

section \<open>Properties of the source package retrieval\<close>

text \<open>
  C9.  For every package name and build option, \<open>get_source\<close> called with
  \<open>dest_path = None\<close> returns the empty string (it does not raise), runs no
  command, and the directory \<open>mkdtemp\<close> created is gone afterwards.
\<close>

theorem get_source_no_dest_path:
  "fst (get_source env base name None build_option self w) = Inr [] \<and>
   mkdtemp_path env \<notin> set (tmp_dirs (snd (get_source env base name None build_option self w))) \<and>
   cmds (snd (get_source env base name None build_option self w)) = cmds w"
  by (simp add: get_source_def get_source_try_def Let_def)

section \<open>Properties of the command-backed operations\<close>

lemma run_cmd_result:
  "run_cmd env c w = (Inr (exit_status env (length (cmds w)) c = 0), w\<lparr>cmds := cmds w @ [c]\<rparr>)"
  by (simp add: run_cmd_def process_system_def Let_def)

lemma upgrade_all:
  "upgrade env None self w = run_cmd env (base_command self @ ''update'' @ transient_opts self) w"
  "upgrade env (Some []) self w = run_cmd env (base_command self @ ''update'' @ transient_opts self) w"
  by (simp_all add: upgrade_def)

text \<open>
  C3.  With a process runner that fails on every command (a nonzero exit status,
  which the runner turns into \<open>CmdError\<close>), \<open>install\<close>, \<open>remove\<close> and \<open>upgrade\<close>
  return \<open>False\<close> for every package name (and \<open>upgrade\<close> also with no name): the
  result is a value, not an exception.
\<close>

theorem failing_runner_returns_False:
  assumes "\<forall>n c. exit_status env n c \<noteq> 0"
  shows "fst (install env name self w) = Inr False \<and>
         fst (remove env name self w) = Inr False \<and>
         fst (upgrade env opt_name self w) = Inr False"
  using assms by (simp add: install_def remove_def upgrade_def run_cmd_result Let_def)

theorem failing_runner_returns_False_witness:
  "(\<forall>n c. exit_status failing_env n c \<noteq> 0) \<and>
   fst (install failing_env ''bash'' example_backend example_world) = Inr False \<and>
   fst (remove failing_env ''bash'' example_backend example_world) = Inr False \<and>
   fst (upgrade failing_env (Some ''bash'') example_backend example_world) = Inr False"
proof -
  have h: "\<forall>n c. exit_status failing_env n c \<noteq> 0"
    by (simp add: failing_env_def)
  show ?thesis
    using h failing_runner_returns_False [OF h, of "''bash''" example_backend example_world "Some ''bash''"]
    by simp
qed

text \<open>
  C4, as the spec states it: on failure the runner's exception propagates out of
  the operation.  It does not: with the runner failing on
  \<open>/usr/bin/yum -y install bash\<close>, \<open>install\<close> returns \<open>False\<close>.
\<close>

theorem install_failure_propagates_counterexample:
  "exit_status failing_env (length (cmds example_world)) ''/usr/bin/yum -y install bash'' = 1 \<and>
   cmds (snd (install failing_env ''bash'' example_backend example_world))
     = [''/usr/bin/yum -y install bash''] \<and>
   fst (install failing_env ''bash'' example_backend example_world) \<noteq> Inl CmdError \<and>
   fst (install failing_env ''bash'' example_backend example_world) = Inr False"
  by (simp add: install_def run_cmd_result failing_env_def example_backend_def init_def
      example_world_def)

text \<open>
  C4, amended.  Each of \<open>install\<close>, \<open>remove\<close> and \<open>upgrade\<close> hands exactly one
  command to the process runner and returns \<open>True\<close> exactly when that command
  exits with status zero; when it exits with another status the operation
  returns \<open>False\<close>, and no exception reaches the caller.
\<close>

theorem success_is_exit_zero:
  "(\<exists>c. install env name self w
          = (Inr (exit_status env (length (cmds w)) c = 0), w\<lparr>cmds := cmds w @ [c]\<rparr>)) \<and>
   (\<exists>c. remove env name self w
          = (Inr (exit_status env (length (cmds w)) c = 0), w\<lparr>cmds := cmds w @ [c]\<rparr>)) \<and>
   (\<exists>c. upgrade env opt_name self w
          = (Inr (exit_status env (length (cmds w)) c = 0), w\<lparr>cmds := cmds w @ [c]\<rparr>))"
  unfolding install_def remove_def upgrade_def Let_def
  by (intro conjI exI) (rule run_cmd_result)+

text \<open>
  C5.  On a backend as \<open>__init__\<close> leaves it, for every package name,
  \<open>install\<close> and \<open>remove\<close> hand the command \<open><tool> -y install <name>\<close> and
  \<open><tool> -y erase <name>\<close> to \<open>_run_cmd\<close>, and \<open>upgrade\<close> with a name (a
  non-empty string: \<open>not name\<close> selects the upgrade of all packages) hands it
  \<open><tool> -y update <name>\<close>; each is followed by \<open> --transient \<close> exactly when
  \<open>/ostree\<close> exists.  That command is the one the process runner receives.
\<close>

theorem command_template:
  assumes "n \<noteq> []"
  shows
    "install env name (init tool ostree c) w
       = run_cmd env (tool @ '' -y install '' @ name @ (if ostree then '' --transient '' else [])) w \<and>
     remove env name (init tool ostree c) w
       = run_cmd env (tool @ '' -y erase '' @ name @ (if ostree then '' --transient '' else [])) w \<and>
     upgrade env (Some n) (init tool ostree c) w
       = run_cmd env (tool @ '' -y update '' @ n @ (if ostree then '' --transient '' else [])) w \<and>
     cmds (snd (install env name (init tool ostree c) w))
       = cmds w @ [tool @ '' -y install '' @ name @ (if ostree then '' --transient '' else [])] \<and>
     cmds (snd (remove env name (init tool ostree c) w))
       = cmds w @ [tool @ '' -y erase '' @ name @ (if ostree then '' --transient '' else [])] \<and>
     cmds (snd (upgrade env (Some n) (init tool ostree c) w))
       = cmds w @ [tool @ '' -y update '' @ n @ (if ostree then '' --transient '' else [])]"
  using assms by (simp add: install_def remove_def upgrade_def init_def run_cmd_result Let_def)

theorem command_template_witness:
  "''bash'' \<noteq> [] \<and>
   cmds (snd (install example_env ''bash'' (init ''/usr/bin/yum'' True ''yum'') example_world))
     = [''/usr/bin/yum -y install bash --transient ''] \<and>
   cmds (snd (remove example_env ''bash'' (init ''/usr/bin/yum'' False ''yum'') example_world))
     = [''/usr/bin/yum -y erase bash''] \<and>
   cmds (snd (upgrade example_env (Some ''bash'') (init ''/usr/bin/yum'' False ''yum'') example_world))
     = [''/usr/bin/yum -y update bash'']"
proof -
  have h: "''bash'' \<noteq> []" by simp
  show ?thesis
    using command_template [OF h, of example_env "''bash''" "''/usr/bin/yum''" True "''yum''" example_world]
      command_template [OF h, of example_env "''bash''" "''/usr/bin/yum''" False "''yum''" example_world]
    by (simp add: example_world_def run_cmd_result)
qed

section \<open>Properties of the repository management\<close>

subsection \<open>The parser\<close>

lemma items_cong:
  "cp_defaults cp' = cp_defaults cp \<Longrightarrow> map_of (cp_sections cp') s = map_of (cp_sections cp) s
     \<Longrightarrow> items cp' s = items cp s"
  by (simp add: items_def split: option.splits)

lemma remove_section_defaults [simp]: "cp_defaults (remove_section cp s) = cp_defaults cp"
  by (simp add: remove_section_def)

lemma remove_section_sections: "sections (remove_section cp s) = removeAll s (sections cp)"
  by (simp add: remove_section_def sections_def delete_keys)

lemma remove_section_map_of:
  "map_of (cp_sections (remove_section cp s)) s' = (if s' = s then None else map_of (cp_sections cp) s')"
  by (simp add: remove_section_def delete_conv')

lemma remove_section_idem: "remove_section (remove_section cp s) s = remove_section cp s"
  by (simp add: remove_section_def delete_idem)

lemma remove_if_baseurl_eq:
  "remove_if_baseurl url s its cp = (if list_ex (is_baseurl url) its then remove_section cp s else cp)"
proof -
  let ?f = "\<lambda>item c. if is_baseurl url item then remove_section c s else c"
  have removed: "fold ?f xs (remove_section c s) = remove_section c s" for xs c
    by (induction xs) (simp_all add: remove_section_idem)
  have "fold ?f its cp = (if list_ex (is_baseurl url) its then remove_section cp s else cp)"
    by (induction its) (simp_all add: removed)
  then show ?thesis by (simp add: remove_if_baseurl_def)
qed

lemma remove_matching_invariant:
  assumes "remove_matching cp url ss = (None, cp')"
  shows "cp_defaults cp' = cp_defaults cp \<and>
         (\<forall>s \<in> set (sections cp'). s \<in> set (sections cp) \<and>
              map_of (cp_sections cp') s = map_of (cp_sections cp) s) \<and>
         (\<forall>s \<in> set ss. s \<in> set (sections cp') \<longrightarrow>
              (\<exists>its. items cp s = Inr its \<and> \<not> list_ex (is_baseurl url) its))"
  using assms
proof (induction ss arbitrary: cp)
  case Nil
  then show ?case by simp
next
  case (Cons s0 rest)
  from Cons.prems obtain its where its: "items cp s0 = Inr its"
    by (cases "items cp s0") auto
  let ?cp1 = "remove_if_baseurl url s0 its cp"
  from Cons.prems its have rm: "remove_matching ?cp1 url rest = (None, cp')" by simp
  note IH = Cons.IH [OF rm]
  have d1: "cp_defaults ?cp1 = cp_defaults cp"
    by (simp add: remove_if_baseurl_eq)
  have s1: "s \<in> set (sections ?cp1) \<Longrightarrow>
              s \<in> set (sections cp) \<and> map_of (cp_sections ?cp1) s = map_of (cp_sections cp) s" for s
    by (auto simp: remove_if_baseurl_eq remove_section_sections remove_section_map_of split: if_splits)
  have gone: "list_ex (is_baseurl url) its \<Longrightarrow> s0 \<notin> set (sections ?cp1)"
    by (simp add: remove_if_baseurl_eq remove_section_sections)
  show ?case
  proof (intro conjI ballI impI)
    show "cp_defaults cp' = cp_defaults cp" using IH d1 by simp
  next
    fix s assume "s \<in> set (sections cp')"
    then show "s \<in> set (sections cp)" using IH s1 by blast
  next
    fix s assume "s \<in> set (sections cp')"
    then show "map_of (cp_sections cp') s = map_of (cp_sections cp) s" using IH s1 by metis
  next
    fix s assume s: "s \<in> set (s0 # rest)" and in': "s \<in> set (sections cp')"
    from in' IH have in1: "s \<in> set (sections ?cp1)" by blast
    show "\<exists>its. items cp s = Inr its \<and> \<not> list_ex (is_baseurl url) its"
    proof (cases "s = s0")
      case True
      with in1 gone its show ?thesis by auto
    next
      case False
      with s have "s \<in> set rest" by simp
      with IH in' obtain its' where "items ?cp1 s = Inr its'" "\<not> list_ex (is_baseurl url) its'"
        by blast
      moreover have "items ?cp1 s = items cp s"
        using s1 [OF in1] d1 by (intro items_cong) simp_all
      ultimately show ?thesis by auto
    qed
  qed
qed

lemma remove_matching_clean:
  assumes "remove_matching cp url (sections cp) = (None, cp')"
  shows "\<forall>s \<in> set (sections cp'). \<exists>its. items cp' s = Inr its \<and> \<not> list_ex (is_baseurl url) its"
proof
  fix s assume s: "s \<in> set (sections cp')"
  note inv = remove_matching_invariant [OF assms]
  from inv s have "s \<in> set (sections cp)" by blast
  with inv s obtain its where "items cp s = Inr its" "\<not> list_ex (is_baseurl url) its" by blast
  moreover have "items cp' s = items cp s"
    using inv s by (intro items_cong) simp_all
  ultimately show "\<exists>its. items cp' s = Inr its \<and> \<not> list_ex (is_baseurl url) its" by auto
qed

lemma remove_matching_no_match:
  "url_is_set cp url ss = Inr False \<Longrightarrow> remove_matching cp url ss = (None, cp)"
proof (induction ss)
  case Nil
  then show ?case by simp
next
  case (Cons s rest)
  then show ?case
    by (cases "items cp s") (auto simp: remove_if_baseurl_eq split: if_splits)
qed

lemma case_sum_Inl:
  "(case x of Inl e \<Rightarrow> Inl e | Inr s \<Rightarrow> Inr (f s)) = Inl e' \<Longrightarrow> x = Inl e'"
  by (cases x) simp_all

lemma case_sum_Inl2:
  "(case x of Inl e \<Rightarrow> Inl e
    | Inr s1 \<Rightarrow> (case y of Inl e \<Rightarrow> Inl e | Inr s2 \<Rightarrow> Inr (f s1 s2))) = Inl e'
   \<Longrightarrow> x = Inl e' \<or> (\<exists>s1. x = Inr s1 \<and> y = Inl e')"
  by (cases x; cases y) simp_all

lemma interpolate_some_error:
  "interpolate_some m depth rest = Inl e \<Longrightarrow>
     e \<in> {InterpolationSyntaxError, InterpolationMissingOptionError, InterpolationDepthError}"
proof (induction m depth rest rule: interpolate_some.induct)
  case (1 m depth rest)
  let ?r1 = "dropWhile (\<lambda>c. c \<noteq> CHR ''%'') rest"
  note eq = interpolate_some.simps [of m depth rest, unfolded Let_def]
  from "1.prems" have raised:
    "(if MAX_INTERPOLATION_DEPTH < depth then Inl InterpolationDepthError
      else if rest = [] then Inr []
      else if ?r1 = [] then Inr rest
      else if take 1 (tl ?r1) = ''%'' then
        (case interpolate_some m depth (drop 2 ?r1) of
           Inl e \<Rightarrow> Inl e
         | Inr s \<Rightarrow> Inr (takeWhile (\<lambda>c. c \<noteq> CHR ''%'') rest @ ''%'' @ s))
      else if take 1 (tl ?r1) = ''('' then
        (case keycre_match ?r1 of
           None \<Rightarrow> Inl InterpolationSyntaxError
         | Some (name, rest2) \<Rightarrow>
             (case map_of m (optionxform name) of
                None \<Rightarrow> Inl InterpolationMissingOptionError
              | Some v \<Rightarrow>
                  (case (if CHR ''%'' \<in> set v
                         then interpolate_some m (depth + 1) v else Inr v) of
                     Inl e \<Rightarrow> Inl e
                   | Inr s1 \<Rightarrow>
                       (case interpolate_some m depth rest2 of
                          Inl e \<Rightarrow> Inl e
                        | Inr s2 \<Rightarrow> Inr (takeWhile (\<lambda>c. c \<noteq> CHR ''%'') rest @ s1 @ s2)))))
      else Inl InterpolationSyntaxError) = Inl e"
    by (subst (asm) eq)
  show ?case
  proof (cases "MAX_INTERPOLATION_DEPTH < depth")
    case True
    with raised show ?thesis by (simp only: simp_thms if_True sum.inject) blast
  next
    case d: False
    show ?thesis
    proof (cases "rest = []")
      case True
      with d raised show ?thesis by (simp only: simp_thms if_True if_False sum.distinct)
    next
      case ne: False
      show ?thesis
      proof (cases "?r1 = []")
        case True
        with d ne raised show ?thesis by (simp only: simp_thms if_True if_False sum.distinct)
      next
        case r1: False
        show ?thesis
        proof (cases "take 1 (tl ?r1) = ''%''")
          case True
          with d ne r1 raised have "interpolate_some m depth (drop 2 ?r1) = Inl e"
            by (simp only: simp_thms if_True if_False) (rule case_sum_Inl)
          from "1.IH"(1) [OF d ne refl refl r1 True this] show ?thesis .
        next
          case np: False
          show ?thesis
          proof (cases "take 1 (tl ?r1) = ''(''")
            case False
            with d ne r1 np raised show ?thesis by (simp only: simp_thms if_True if_False sum.inject) blast
          next
            case op: True
            show ?thesis
            proof (cases "keycre_match ?r1")
              case None
              with d ne r1 np op raised show ?thesis
                by (simp only: simp_thms if_True if_False option.case sum.inject) blast
            next
              case (Some x2)
              obtain name rest2 where x2: "(name, rest2) = x2" by (cases x2) simp
              show ?thesis
              proof (cases "map_of m (optionxform name)")
                case None
                with d ne r1 np op Some x2 [symmetric] raised show ?thesis
                  by (simp only: simp_thms if_True if_False option.case prod.case sum.inject) blast
              next
                case v: (Some v)
                let ?inner = "if CHR ''%'' \<in> set v then interpolate_some m (depth + 1) v else Inr v"
                from d ne r1 np op Some x2 [symmetric] v raised
                have "?inner = Inl e \<or> (\<exists>s1. ?inner = Inr s1 \<and> interpolate_some m depth rest2 = Inl e)"
                  by (simp only: simp_thms if_True if_False option.case prod.case) (rule case_sum_Inl2)
                then show ?thesis
                proof (elim disjE exE conjE)
                  assume i: "?inner = Inl e"
                  then have pc: "CHR ''%'' \<in> set v" by (cases "CHR ''%'' \<in> set v") simp_all
                  with i have "interpolate_some m (depth + 1) v = Inl e" by simp
                  from "1.IH"(2) [OF d ne refl refl r1 np op Some x2 v pc this] show ?thesis .
                next
                  fix s1 assume i: "?inner = Inr s1" and r: "interpolate_some m depth rest2 = Inl e"
                  from "1.IH"(3) [OF d ne refl refl r1 np op Some x2 v i r] show ?thesis .
                qed
              qed
            qed
          qed
        qed
      qed
    qed
  qed
qed

lemma interpolate_items_error:
  "interpolate_items d kvs = Inl e \<Longrightarrow>
     e \<in> {InterpolationSyntaxError, InterpolationMissingOptionError, InterpolationDepthError}"
proof (induction kvs arbitrary: e)
  case Nil
  then show ?case by simp
next
  case (Cons kv kvs)
  obtain option v where kv: "kv = (option, v)" by (cases kv)
  from Cons.prems show ?case
    unfolding kv
    by (auto simp: before_get_def split: sum.splits dest: interpolate_some_error Cons.IH)
qed

lemma items_error: "items cp section = Inl e \<Longrightarrow> e \<noteq> OSError \<and> e \<noteq> CmdError"
  by (auto simp: items_def Let_def split: option.splits if_splits dest!: interpolate_items_error)

lemma remove_matching_error:
  "remove_matching cp url ss = (Some e, cp') \<Longrightarrow> e \<noteq> OSError \<and> e \<noteq> CmdError"
proof (induction ss arbitrary: cp)
  case Nil
  then show ?case by simp
next
  case (Cons s rest)
  then show ?case
    by (cases "items cp s") (auto dest: items_error)
qed

lemma except_os_cmd_False:
  "except_os_cmd r = Inr False \<longleftrightarrow> r = Inl OSError \<or> r = Inl CmdError \<or> r = Inr False"
  by (cases r rule: except_os_cmd.cases) simp_all

lemma repo_config_parser_cfgparser:
  "repo_config_parser self w = (cp, self1) \<Longrightarrow> cfgparser self1 = Some cp"
  by (auto simp: repo_config_parser_def split: option.splits)

lemma example_parser:
  "repo_config_parser example_backend example_world
     = (empty_config, example_backend\<lparr>cfgparser := Some empty_config\<rparr>)"
  by (simp add: repo_config_parser_def example_backend_def init_def example_world_def)

lemma loaded_parser:
  "repo_config_parser (example_backend\<lparr>cfgparser := Some cp\<rparr>) w
     = (cp, example_backend\<lparr>cfgparser := Some cp\<rparr>)"
  by (simp add: repo_config_parser_def)

subsection \<open>Adding\<close>

lemma add_repo_new:
  assumes "repo_config_parser self w = (cp, self1)"
      and "url_is_set cp url (sections cp) = Inr False"
      and "gen_section_name env cp (rand_calls w) = Some (section_name, n)"
      and "add_repo_try env url (dict_update [(''enabled'', ''1''), (''gpgcheck'', ''0'')] opt_params)
             section_name cp (w\<lparr>rand_calls := n\<rparr>) = (r, cp', w')"
  shows "add_repo env url opt_params self w
           = Some (except_os_cmd r, self1\<lparr>cfgparser := Some cp'\<rparr>, w')"
  using assms by (simp add: add_repo_def Let_def)

lemma gen_section_name_result:
  assumes "gen_section_name env cp n = Some y"
  shows "\<not> has_section cp (fst y) \<and> n < snd y \<and>
         fst y = ''software_manager'' @ ''_'' @ rand_string env (snd y - 1)"
proof (rule gen_section_name.raw_induct
    [where P = "\<lambda>env cp n y. \<not> has_section cp (fst y) \<and> n < snd y \<and>
                  fst y = ''software_manager'' @ ''_'' @ rand_string env (snd y - 1)"])
  show "gen_section_name env cp n = Some y" by (rule assms)
next
  fix gen env cp n y
  assume IH: "\<And>env cp n y. gen env cp n = Some y \<Longrightarrow>
                \<not> has_section cp (fst y) \<and> n < snd y \<and>
                fst y = ''software_manager'' @ ''_'' @ rand_string env (snd y - 1)"
    and step: "(if \<not> has_section cp (''software_manager'' @ ''_'' @ rand_string env n)
         then Some (''software_manager'' @ ''_'' @ rand_string env n, Suc n)
         else gen env cp (Suc n)) = Some y"
  show "\<not> has_section cp (fst y) \<and> n < snd y \<and>
        fst y = ''software_manager'' @ ''_'' @ rand_string env (snd y - 1)"
  proof (cases "has_section cp (''software_manager'' @ ''_'' @ rand_string env n)")
    case True
    with step have "gen env cp (Suc n) = Some y" by simp
    from IH [OF this] show ?thesis by auto
  next
    case False
    with step show ?thesis by auto
  qed
qed

lemma gen_section_name_fresh:
  "gen_section_name env cp n = Some (section_name, m) \<Longrightarrow>
     \<not> has_section cp section_name \<and> n < m \<and>
     section_name = ''software_manager'' @ ''_'' @ rand_string env (m - 1)"
  using gen_section_name_result [of env cp n "(section_name, m)"] by auto

lemma gen_section_name_terminates:
  assumes "n \<le> k" and "\<not> has_section cp (''software_manager'' @ ''_'' @ rand_string env k)"
  shows "gen_section_name env cp n \<noteq> None"
  using assms
proof (induction "k - n" arbitrary: n)
  case 0
  then have "n = k" by simp
  with "0.prems" show ?case by (subst gen_section_name.simps) simp
next
  case (Suc d)
  then have "Suc n \<le> k" "d = k - Suc n" by simp_all
  with Suc have "gen_section_name env cp (Suc n) \<noteq> None" by blast
  then show ?case by (subst gen_section_name.simps) simp
qed

lemma set_cp_sections: "set_cp cp s opt v = Inr cp' \<Longrightarrow> sections cp' = sections cp"
  by (auto simp: set_cp_def sections_def update_keys map_of_eq_None_iff [symmetric]
           split: sum.splits if_splits option.splits)

lemma set_options_sections:
  "set_options cp s opts = (e, cp') \<Longrightarrow> sections cp' = sections cp"
proof (induction opts arbitrary: cp)
  case Nil
  then show ?case by simp
next
  case (Cons kv opts)
  obtain k v where kv: "kv = (k, v)" by (cases kv)
  show ?case
  proof (cases "set_cp cp s k v")
    case (Inl e')
    with Cons.prems kv show ?thesis by simp
  next
    case (Inr cp1)
    with Cons.prems kv have "set_options cp1 s opts = (e, cp')" by simp
    from Cons.IH [OF this] set_cp_sections [OF Inr] show ?thesis by simp
  qed
qed

lemma add_section_sections:
  "add_section cp s = Inr cp' \<Longrightarrow> sections cp' = sections cp @ [s]"
  by (auto simp: add_section_def sections_def split: if_splits)

lemma add_section_fresh:
  "\<not> has_section cp s \<Longrightarrow> s \<noteq> DEFAULTSECT \<Longrightarrow> \<exists>cp'. add_section cp s = Inr cp'"
  by (simp add: add_section_def has_section_def)

lemma add_repo_try_sections:
  assumes "\<not> has_section cp s" and "s \<noteq> DEFAULTSECT"
      and "add_repo_try env url repo_options s cp w = (r, cp', w')"
  shows "sections cp' = sections cp @ [s]"
proof -
  from add_section_fresh [OF assms(1,2)] obtain cp1 where 1: "add_section cp s = Inr cp1" by blast
  note s1 = add_section_sections [OF 1]
  show ?thesis
  proof (cases "set_cp cp1 s ''name'' ''Avocado managed repository''")
    case (Inl e)
    with assms(3) 1 s1 show ?thesis by (simp add: add_repo_try_def)
  next
    case 2: (Inr cp2)
    note s2 = set_cp_sections [OF 2]
    show ?thesis
    proof (cases "set_cp cp2 s ''baseurl'' url")
      case (Inl e)
      with assms(3) 1 2 s1 s2 show ?thesis by (simp add: add_repo_try_def)
    next
      case 3: (Inr cp3)
      note s3 = set_cp_sections [OF 3]
      obtain e cp4 where 4: "set_options cp3 s repo_options = (e, cp4)"
        by (cases "set_options cp3 s repo_options")
      note s4 = set_options_sections [OF 4]
      from assms(3) 1 2 3 4 have "cp' = cp4"
        by (cases e; cases "write_and_copy env cp4 w"; cases "fst (write_and_copy env cp4 w)")
           (auto simp: add_repo_try_def)
      with s1 s2 s3 s4 show ?thesis by simp
    qed
  qed
qed

lemma generated_name_not_default: "''software_manager'' @ ''_'' @ x \<noteq> DEFAULTSECT"
  by (simp add: DEFAULTSECT_def)

text \<open>
  C6.  When no section references the URL, so that \<open>add_repo\<close> sets up a new
  entry: if \<open>add_repo\<close> returns, the name its loop generated is not the name of
  any section that was there, and it is the name of the one section the parser
  has gained; and the loop does end (so \<open>add_repo\<close> returns) as soon as the
  generator draws a name that no section has.
\<close>

theorem generated_section_name_fresh:
  assumes "repo_config_parser self w = (cp, self1)"
      and "url_is_set cp url (sections cp) = Inr False"
  shows "(add_repo env url opt_params self w = Some (r, self', w') \<longrightarrow>
            (\<exists>section_name m cp'.
               gen_section_name env cp (rand_calls w) = Some (section_name, m) \<and>
               section_name \<notin> set (sections cp) \<and>
               cfgparser self' = Some cp' \<and>
               sections cp' = sections cp @ [section_name])) \<and>
         ((\<exists>k\<ge>rand_calls w. \<not> has_section cp (''software_manager'' @ ''_'' @ rand_string env k)) \<longrightarrow>
            add_repo env url opt_params self w \<noteq> None)"
proof (intro conjI impI)
  assume a: "add_repo env url opt_params self w = Some (r, self', w')"
  with assms obtain section_name m where g: "gen_section_name env cp (rand_calls w) = Some (section_name, m)"
    by (cases "gen_section_name env cp (rand_calls w)") (simp add: add_repo_def Let_def, force)
  note f = gen_section_name_fresh [OF g]
  obtain r0 cp' w0 where t: "add_repo_try env url
      (dict_update [(''enabled'', ''1''), (''gpgcheck'', ''0'')] opt_params) section_name cp
      (w\<lparr>rand_calls := m\<rparr>) = (r0, cp', w0)"
    by (cases "add_repo_try env url
      (dict_update [(''enabled'', ''1''), (''gpgcheck'', ''0'')] opt_params) section_name cp
      (w\<lparr>rand_calls := m\<rparr>)") blast
  from f have "section_name = ''software_manager'' @ ''_'' @ rand_string env (m - 1)" by blast
  then have nd: "section_name \<noteq> DEFAULTSECT"
    by (simp only: generated_name_not_default not_False_eq_True)
  from f have fresh: "\<not> has_section cp section_name" by blast
  from a assms g t have "cfgparser self' = Some cp'" by (simp add: add_repo_def Let_def) auto
  moreover note add_repo_try_sections [OF fresh nd t]
  moreover from fresh have "section_name \<notin> set (sections cp)" by (simp add: has_section_def)
  ultimately show "\<exists>section_name m cp'.
               gen_section_name env cp (rand_calls w) = Some (section_name, m) \<and>
               section_name \<notin> set (sections cp) \<and>
               cfgparser self' = Some cp' \<and>
               sections cp' = sections cp @ [section_name]"
    using g by blast
next
  assume "\<exists>k\<ge>rand_calls w. \<not> has_section cp (''software_manager'' @ ''_'' @ rand_string env k)"
  then obtain k where "rand_calls w \<le> k" "\<not> has_section cp (''software_manager'' @ ''_'' @ rand_string env k)"
    by blast
  from gen_section_name_terminates [OF this] assms
  show "add_repo env url opt_params self w \<noteq> None"
    by (simp add: add_repo_def Let_def split: prod.splits option.splits)
qed

theorem generated_section_name_fresh_witness:
  "repo_config_parser example_backend one_repo_world
     = (repo_file one_repo_world, example_backend\<lparr>cfgparser := Some (repo_file one_repo_world)\<rparr>) \<and>
   url_is_set (repo_file one_repo_world) ''http://mirror.example.com/repo''
     (sections (repo_file one_repo_world)) = Inr False \<and>
   sections (repo_file one_repo_world) = [''software_manager_Zq7x''] \<and>
   (\<exists>self' w'.
      add_repo colliding_env ''http://mirror.example.com/repo'' [] example_backend one_repo_world
        = Some (Inr True, self', w') \<and>
      (\<exists>section_name m cp'.
         gen_section_name colliding_env (repo_file one_repo_world) (rand_calls one_repo_world)
           = Some (section_name, m) \<and>
         section_name \<notin> set (sections (repo_file one_repo_world)) \<and>
         cfgparser self' = Some cp' \<and>
         sections cp' = sections (repo_file one_repo_world) @ [section_name]) \<and>
      map_option sections (cfgparser self')
        = Some [''software_manager_Zq7x'', ''software_manager_aB3d'']) \<and>
   rand_calls one_repo_world \<le> 1 \<and>
   \<not> has_section (repo_file one_repo_world)
       (''software_manager'' @ ''_'' @ rand_string colliding_env 1) \<and>
   add_repo colliding_env ''http://mirror.example.com/repo'' [] example_backend one_repo_world \<noteq> None"
proof -
  have p: "repo_config_parser example_backend one_repo_world
     = (repo_file one_repo_world, example_backend\<lparr>cfgparser := Some (repo_file one_repo_world)\<rparr>)"
    by (simp add: repo_config_parser_def example_backend_def init_def)
  have u: "url_is_set (repo_file one_repo_world) ''http://mirror.example.com/repo''
     (sections (repo_file one_repo_world)) = Inr False"
    by code_simp
  have s: "sections (repo_file one_repo_world) = [''software_manager_Zq7x'']"
    by code_simp
  have "case add_repo colliding_env ''http://mirror.example.com/repo'' [] example_backend one_repo_world of
          None \<Rightarrow> False
        | Some (r, self', w') \<Rightarrow>
            r = Inr True \<and>
            map_option sections (cfgparser self')
              = Some [''software_manager_Zq7x'', ''software_manager_aB3d'']"
    by code_simp
  then obtain self' w'
    where a: "add_repo colliding_env ''http://mirror.example.com/repo'' [] example_backend one_repo_world
                = Some (Inr True, self', w')"
      and m: "map_option sections (cfgparser self')
                = Some [''software_manager_Zq7x'', ''software_manager_aB3d'']"
    by (auto split: option.splits prod.splits)
  have k: "rand_calls one_repo_world \<le> 1"
    by (simp add: one_repo_world_def example_world_def)
  have f: "\<not> has_section (repo_file one_repo_world)
       (''software_manager'' @ ''_'' @ rand_string colliding_env 1)"
    by code_simp
  note inst = generated_section_name_fresh
    [OF p u, of colliding_env "[]" "Inr True" self' w']
  from inst a have 1: "\<exists>section_name m cp'.
         gen_section_name colliding_env (repo_file one_repo_world) (rand_calls one_repo_world)
           = Some (section_name, m) \<and>
         section_name \<notin> set (sections (repo_file one_repo_world)) \<and>
         cfgparser self' = Some cp' \<and>
         sections cp' = sections (repo_file one_repo_world) @ [section_name]"
    by blast
  from inst k f
  have 2: "add_repo colliding_env ''http://mirror.example.com/repo'' [] example_backend one_repo_world \<noteq> None"
    by blast
  from p u s a m 1 2 k f show ?thesis by blast
qed

text \<open>
  C1, at a URL with a percent escape.  \<open>ConfigParser.set\<close> checks the value for
  interpolation syntax and raises \<open>ValueError\<close> on \<open>%20\<close>, after the section was
  added and named; \<open>add_repo\<close> does not catch it.  The second call finds no
  \<open>baseurl\<close>, adds a second section and raises again: it does not return \<open>True\<close>,
  and the parser has gained two sections, neither referencing the URL.
\<close>

theorem add_repo_twice_percent_url:
  "add_repo two_names_env ''http://mirror.example.com/my%20repo'' [] example_backend example_world
     = Some (Inl ValueError,
             example_backend\<lparr>cfgparser := Some (name_only_config [''software_manager_aB3d''])\<rparr>,
             example_world\<lparr>rand_calls := 1\<rparr>) \<and>
   add_repo two_names_env ''http://mirror.example.com/my%20repo'' []
       (example_backend\<lparr>cfgparser := Some (name_only_config [''software_manager_aB3d''])\<rparr>)
       (example_world\<lparr>rand_calls := 1\<rparr>)
     = Some (Inl ValueError,
             example_backend\<lparr>cfgparser :=
               Some (name_only_config [''software_manager_aB3d'', ''software_manager_Zq7x''])\<rparr>,
             example_world\<lparr>rand_calls := 2\<rparr>)"
proof -
  let ?url = "''http://mirror.example.com/my%20repo''"
  let ?c1 = "name_only_config [''software_manager_aB3d'']"
  let ?c2 = "name_only_config [''software_manager_aB3d'', ''software_manager_Zq7x'']"
  have u0: "url_is_set empty_config ?url (sections empty_config) = Inr False"
    by code_simp
  have g0: "gen_section_name two_names_env empty_config (rand_calls example_world)
              = Some (''software_manager_aB3d'', 1)"
    by code_simp
  have t0: "add_repo_try two_names_env ?url (dict_update [(''enabled'', ''1''), (''gpgcheck'', ''0'')] [])
              ''software_manager_aB3d'' empty_config (example_world\<lparr>rand_calls := 1\<rparr>)
              = (Inl ValueError, ?c1, example_world\<lparr>rand_calls := 1\<rparr>)"
    by code_simp
  have u1: "url_is_set ?c1 ?url (sections ?c1) = Inr False"
    by code_simp
  have g1: "gen_section_name two_names_env ?c1 (rand_calls (example_world\<lparr>rand_calls := 1\<rparr>))
              = Some (''software_manager_Zq7x'', 2)"
    by code_simp
  have t1: "add_repo_try two_names_env ?url (dict_update [(''enabled'', ''1''), (''gpgcheck'', ''0'')] [])
              ''software_manager_Zq7x'' ?c1 (example_world\<lparr>rand_calls := 1, rand_calls := 2\<rparr>)
              = (Inl ValueError, ?c2, example_world\<lparr>rand_calls := 2\<rparr>)"
    by code_simp
  from add_repo_new [OF example_parser u0 g0 t0] add_repo_new [OF loaded_parser u1 g1 t1]
  show ?thesis by simp
qed

subsection \<open>Removing\<close>

lemma remove_repo_run:
  assumes "tmp_file_name env = Some tmp_name"
      and "repo_config_parser self w = (cp, self1)"
      and "remove_matching cp url (sections cp) = (None, cp')"
      and "tmp_write_ok env"
      and "process_system env (''cp '' @ tmp_name @ '' '' @ REPO_FILE_PATH) w = (Inr status, w')"
  shows "remove_repo env url self w
           = (Inr True, self1\<lparr>cfgparser := Some cp'\<rparr>, w'\<lparr>repo_file := read_written env cp'\<rparr>)"
  using assms by (simp add: remove_repo_def Let_def)

lemma remove_repo_raise:
  assumes "tmp_file_name env = Some tmp_name"
      and "repo_config_parser self w = (cp, self1)"
      and "remove_matching cp url (sections cp) = (Some e, cp')"
  shows "remove_repo env url self w = (except_os_cmd (Inl e), self1\<lparr>cfgparser := Some cp'\<rparr>, w)"
  using assms by (simp add: remove_repo_def Let_def)

lemma remove_repo_True:
  assumes "remove_repo env url self w = (Inr True, self', w')"
      and "repo_config_parser self w = (cp, self1)"
  shows "\<exists>cp'. remove_matching cp url (sections cp) = (None, cp') \<and>
               cfgparser self' = Some cp' \<and> repo_file w' = read_written env cp'"
proof -
  obtain e_opt cp' where rm: "remove_matching cp url (sections cp) = (e_opt, cp')"
    by (cases "remove_matching cp url (sections cp)")
  from assms rm show ?thesis
    by (cases "tmp_file_name env"; cases e_opt; cases "the e_opt")
       (auto simp: remove_repo_def process_system_def Let_def split: if_splits)
qed

text \<open>
  What a successful \<open>remove_repo\<close> does leave: a parser in which the items of
  every section can be listed and none of them is \<open>("baseurl", url)\<close>.  The
  values compared are the interpolated ones, as in the source.
\<close>

lemma remove_repo_True_no_item:
  assumes "remove_repo env url self w = (Inr True, self', w')"
  shows "\<exists>cp. cfgparser self' = Some cp \<and>
              (\<forall>section \<in> set (sections cp).
                 \<exists>its. items cp section = Inr its \<and> \<not> list_ex (is_baseurl url) its)"
proof -
  obtain cp1 self1 where p: "repo_config_parser self w = (cp1, self1)"
    by (cases "repo_config_parser self w")
  from remove_repo_True [OF assms p] obtain cp'
    where "remove_matching cp1 url (sections cp1) = (None, cp')"
      and "cfgparser self' = Some cp'" by blast
  with remove_matching_clean show ?thesis by blast
qed

text \<open>
  C2, at a URL with an escaped percent sign.  \<open>add_repo\<close> stores the URL as it
  is and returns \<open>True\<close>.  \<open>remove_repo\<close> compares the URL with what \<open>items\<close>
  returns, where \<open>%%\<close> has become \<open>%\<close>: nothing matches, and it returns \<open>True\<close>
  with the section still in the parser, its \<open>baseurl\<close> the URL, and copied into
  the repository file once more.
\<close>

theorem remove_repo_after_add_repo_escaped_percent:
  "add_repo example_env ''http://mirror.example.com/my%%20repo'' [] example_backend example_world
     = Some (Inr True,
             example_backend\<lparr>cfgparser :=
               Some (one_repo_config ''software_manager_aB3d'' ''http://mirror.example.com/my%%20repo'')\<rparr>,
             example_world\<lparr>cmds := [copy_command], rand_calls := 1,
               repo_file := one_repo_config ''software_manager_aB3d'' ''http://mirror.example.com/my%%20repo''\<rparr>) \<and>
   remove_repo example_env ''http://mirror.example.com/my%%20repo''
       (example_backend\<lparr>cfgparser :=
          Some (one_repo_config ''software_manager_aB3d'' ''http://mirror.example.com/my%%20repo'')\<rparr>)
       (example_world\<lparr>cmds := [copy_command], rand_calls := 1,
          repo_file := one_repo_config ''software_manager_aB3d'' ''http://mirror.example.com/my%%20repo''\<rparr>)
     = (Inr True,
        example_backend\<lparr>cfgparser :=
          Some (one_repo_config ''software_manager_aB3d'' ''http://mirror.example.com/my%%20repo'')\<rparr>,
        example_world\<lparr>cmds := [copy_command, copy_command], rand_calls := 1,
          repo_file := one_repo_config ''software_manager_aB3d'' ''http://mirror.example.com/my%%20repo''\<rparr>)"
proof -
  let ?url = "''http://mirror.example.com/my%%20repo''"
  let ?c = "one_repo_config ''software_manager_aB3d'' ?url"
  let ?w1 = "example_world\<lparr>cmds := [copy_command], rand_calls := 1, repo_file := ?c\<rparr>"
  have u: "url_is_set empty_config ?url (sections empty_config) = Inr False"
    by code_simp
  have g: "gen_section_name example_env empty_config (rand_calls example_world)
              = Some (''software_manager_aB3d'', 1)"
    by code_simp
  have t: "add_repo_try example_env ?url (dict_update [(''enabled'', ''1''), (''gpgcheck'', ''0'')] [])
              ''software_manager_aB3d'' empty_config (example_world\<lparr>rand_calls := 1\<rparr>)
              = (Inr True, ?c, ?w1)"
    by code_simp
  have f: "tmp_file_name example_env = Some ''/tmp/avocado_software_managerq1w2''"
      "tmp_write_ok example_env" "read_written example_env ?c = ?c"
    by (simp_all add: example_env_def)
  have m: "remove_matching ?c ?url (sections ?c) = (None, ?c)"
    by code_simp
  have p: "process_system example_env (''cp '' @ ''/tmp/avocado_software_managerq1w2'' @ '' '' @ REPO_FILE_PATH) ?w1
             = (Inr 0, ?w1\<lparr>cmds := [copy_command, copy_command]\<rparr>)"
    by code_simp
  from add_repo_new [OF example_parser u g t]
    remove_repo_run [OF f(1) loaded_parser m f(2) p] f(3)
  show ?thesis by simp
qed

text \<open>
  C10, as stated, fails in a state the backend reaches by itself.  \<open>add_repo\<close>
  of a URL that holds \<open>%(releasever)s\<close> returns \<open>True\<close> and stores it.  After
  that \<open>remove_repo\<close> of a URL no section references does not return \<open>True\<close>:
  listing the items of the stored section raises
  \<open>InterpolationMissingOptionError\<close>, which is not caught, and no copy is run.
\<close>

theorem remove_repo_no_match_counterexample:
  "add_repo example_env ''http://mirror.example.com/%(releasever)s/os'' [] example_backend example_world
     = Some (Inr True,
             example_backend\<lparr>cfgparser :=
               Some (one_repo_config ''software_manager_aB3d'' ''http://mirror.example.com/%(releasever)s/os'')\<rparr>,
             example_world\<lparr>cmds := [copy_command], rand_calls := 1,
               repo_file := one_repo_config ''software_manager_aB3d'' ''http://mirror.example.com/%(releasever)s/os''\<rparr>) \<and>
   remove_repo example_env ''http://mirror.example.com/repo''
       (example_backend\<lparr>cfgparser :=
          Some (one_repo_config ''software_manager_aB3d'' ''http://mirror.example.com/%(releasever)s/os'')\<rparr>)
       (example_world\<lparr>cmds := [copy_command], rand_calls := 1,
          repo_file := one_repo_config ''software_manager_aB3d'' ''http://mirror.example.com/%(releasever)s/os''\<rparr>)
     = (Inl InterpolationMissingOptionError,
        example_backend\<lparr>cfgparser :=
          Some (one_repo_config ''software_manager_aB3d'' ''http://mirror.example.com/%(releasever)s/os'')\<rparr>,
        example_world\<lparr>cmds := [copy_command], rand_calls := 1,
          repo_file := one_repo_config ''software_manager_aB3d'' ''http://mirror.example.com/%(releasever)s/os''\<rparr>)"
proof -
  let ?url = "''http://mirror.example.com/%(releasever)s/os''"
  let ?c = "one_repo_config ''software_manager_aB3d'' ?url"
  let ?w1 = "example_world\<lparr>cmds := [copy_command], rand_calls := 1, repo_file := ?c\<rparr>"
  have u: "url_is_set empty_config ?url (sections empty_config) = Inr False"
    by code_simp
  have g: "gen_section_name example_env empty_config (rand_calls example_world)
              = Some (''software_manager_aB3d'', 1)"
    by code_simp
  have t: "add_repo_try example_env ?url (dict_update [(''enabled'', ''1''), (''gpgcheck'', ''0'')] [])
              ''software_manager_aB3d'' empty_config (example_world\<lparr>rand_calls := 1\<rparr>)
              = (Inr True, ?c, ?w1)"
    by code_simp
  have f: "tmp_file_name example_env = Some ''/tmp/avocado_software_managerq1w2''"
    by (simp add: example_env_def)
  have m: "remove_matching ?c ''http://mirror.example.com/repo'' (sections ?c)
             = (Some InterpolationMissingOptionError, ?c)"
    by code_simp
  from add_repo_new [OF example_parser u g t] remove_repo_raise [OF f loaded_parser m]
  show ?thesis by simp
qed

text \<open>
  C10, amended.  For every URL: when the items of every section can be listed
  (no stored value fails to interpolate) and none of them is
  \<open>("baseurl", url)\<close>, and the temporary file and the copy succeed,
  \<open>remove_repo\<close> returns \<open>True\<close>, leaves the parser as it was, and still hands the
  \<open>cp\<close> command to the runner, after which the repository file holds the text
  written for the parser's state.  And \<open>remove_repo\<close> returns \<open>False\<close> only when
  the temporary file could not be created or written (\<open>OSError\<close>) or the copy
  exited with a nonzero status (\<open>CmdError\<close>).
\<close>

theorem remove_repo_no_match:
  assumes "repo_config_parser self w = (cp, self1)"
  shows "(url_is_set cp url (sections cp) = Inr False \<and>
          tmp_file_name env = Some tmp_name \<and> tmp_write_ok env \<and>
          exit_status env (length (cmds w)) (''cp '' @ tmp_name @ '' '' @ REPO_FILE_PATH) = 0
          \<longrightarrow> remove_repo env url self w
                = (Inr True, self1,
                   w\<lparr>cmds := cmds w @ [''cp '' @ tmp_name @ '' '' @ REPO_FILE_PATH],
                     repo_file := read_written env cp\<rparr>)) \<and>
         (fst (remove_repo env url self w) = Inr False
          \<longrightarrow> tmp_file_name env = None \<or> \<not> tmp_write_ok env \<or>
              (\<exists>tmp_name. tmp_file_name env = Some tmp_name \<and>
                 exit_status env (length (cmds w)) (''cp '' @ tmp_name @ '' '' @ REPO_FILE_PATH) \<noteq> 0))"
proof (intro conjI impI)
  assume a: "url_is_set cp url (sections cp) = Inr False \<and>
          tmp_file_name env = Some tmp_name \<and> tmp_write_ok env \<and>
          exit_status env (length (cmds w)) (''cp '' @ tmp_name @ '' '' @ REPO_FILE_PATH) = 0"
  then have rm: "remove_matching cp url (sections cp) = (None, cp)"
    by (simp add: remove_matching_no_match)
  have same: "self1\<lparr>cfgparser := Some cp\<rparr> = self1"
    using repo_config_parser_cfgparser [OF assms] by simp
  from a rm assms same show "remove_repo env url self w
                = (Inr True, self1,
                   w\<lparr>cmds := cmds w @ [''cp '' @ tmp_name @ '' '' @ REPO_FILE_PATH],
                     repo_file := read_written env cp\<rparr>)"
    by (simp add: remove_repo_def process_system_def Let_def)
next
  assume f: "fst (remove_repo env url self w) = Inr False"
  obtain e_opt cp' where rm: "remove_matching cp url (sections cp) = (e_opt, cp')"
    by (cases "remove_matching cp url (sections cp)")
  show "tmp_file_name env = None \<or> \<not> tmp_write_ok env \<or>
              (\<exists>tmp_name. tmp_file_name env = Some tmp_name \<and>
                 exit_status env (length (cmds w)) (''cp '' @ tmp_name @ '' '' @ REPO_FILE_PATH) \<noteq> 0)"
  proof (cases "tmp_file_name env")
    case None
    then show ?thesis by simp
  next
    case (Some t)
    show ?thesis
    proof (cases e_opt)
      case None
      with f Some rm assms show ?thesis
        by (auto simp: remove_repo_def process_system_def Let_def split: if_splits)
    next
      case (Some e)
      with rm remove_matching_error have "e \<noteq> OSError \<and> e \<noteq> CmdError" by blast
      with f \<open>tmp_file_name env = Some t\<close> Some rm assms show ?thesis
        by (cases e) (auto simp: remove_repo_def Let_def)
    qed
  qed
qed

theorem remove_repo_no_match_witness:
  "url_is_set (repo_file one_repo_world) ''http://mirror.example.com/repo''
     (sections (repo_file one_repo_world)) = Inr False \<and>
   tmp_file_name example_env = Some ''/tmp/avocado_software_managerq1w2'' \<and>
   tmp_write_ok example_env \<and>
   exit_status example_env (length (cmds one_repo_world)) copy_command = 0 \<and>
   remove_repo example_env ''http://mirror.example.com/repo'' example_backend one_repo_world
     = (Inr True, example_backend\<lparr>cfgparser := Some (repo_file one_repo_world)\<rparr>,
        one_repo_world\<lparr>cmds := [copy_command],
          repo_file := read_written example_env (repo_file one_repo_world)\<rparr>) \<and>
   fst (remove_repo failing_env ''http://mirror.example.com/repo'' example_backend one_repo_world)
     = Inr False \<and>
   tmp_file_name failing_env = Some ''/tmp/avocado_software_managerq1w2'' \<and>
   exit_status failing_env (length (cmds one_repo_world)) copy_command = 1"
proof -
  have p: "repo_config_parser example_backend one_repo_world
             = (repo_file one_repo_world, example_backend\<lparr>cfgparser := Some (repo_file one_repo_world)\<rparr>)"
    by (simp add: repo_config_parser_def example_backend_def init_def)
  have u: "url_is_set (repo_file one_repo_world) ''http://mirror.example.com/repo''
             (sections (repo_file one_repo_world)) = Inr False"
    by code_simp
  have c: "''cp '' @ ''/tmp/avocado_software_managerq1w2'' @ '' '' @ REPO_FILE_PATH = copy_command"
    by (simp add: REPO_FILE_PATH_def copy_command_def)
  have t: "tmp_file_name example_env = Some ''/tmp/avocado_software_managerq1w2''"
      "tmp_write_ok example_env"
      "exit_status example_env (length (cmds one_repo_world)) copy_command = 0"
    by (simp_all add: example_env_def)
  have e: "cmds one_repo_world = []"
    by (simp add: one_repo_world_def example_world_def)
  have f: "fst (remove_repo failing_env ''http://mirror.example.com/repo'' example_backend one_repo_world)
             = Inr False"
    by code_simp
  have x: "tmp_file_name failing_env = Some ''/tmp/avocado_software_managerq1w2''"
      "exit_status failing_env (length (cmds one_repo_world)) copy_command = 1"
    by (simp_all add: failing_env_def example_env_def)
  from remove_repo_no_match [OF p, of "''http://mirror.example.com/repo''" example_env
      "''/tmp/avocado_software_managerq1w2''"] u t c e f x
  show ?thesis by simp
qed

end
